theory Spec2Isabelle
  imports Complex_Main "HOL-Library.Multiset"
begin

section \<open>Python values, exceptions and messages\<close>

text \<open>
  The values that \<^verbatim>\<open>json.loads\<close> hands to the directory: \<^verbatim>\<open>None\<close>, booleans, integers,
  strings, lists and dicts with string keys (a \<open>PDict\<close> lists the items of the dict, each key
  once). Numbers with a fractional part are not represented.
\<close>

datatype pyval =
    PNone
  | PBool bool
  | PInt int
  | PStr string
  | PList "pyval list"
  | PDict "(string \<times> pyval) list"

text \<open>The subclasses of \<^verbatim>\<open>Exception\<close> that the modelled code can meet.\<close>

datatype exn =
    KeyError
  | TypeError
  | IndexError
  | ValueError
  | StopIteration
  | OtherError string

text \<open>
  Keys of a Python dict are compared by \<^verbatim>\<open>==\<close> and hash: \<^verbatim>\<open>True\<close> and \<^verbatim>\<open>1\<close> are the same
  key, lists and dicts are unhashable (\<open>None\<close> here, a \<^verbatim>\<open>TypeError\<close> in the code).
\<close>

datatype key = KNone | KInt int | KStr string

fun hash_key :: "pyval \<Rightarrow> key option" where
  "hash_key PNone = Some KNone"
| "hash_key (PBool b) = Some (KInt (if b then 1 else 0))"
| "hash_key (PInt i) = Some (KInt i)"
| "hash_key (PStr s) = Some (KStr s)"
| "hash_key (PList _) = None"
| "hash_key (PDict _) = None"

text \<open>\<^verbatim>\<open>v[k]\<close> for a string \<open>k\<close>: only a dict can be subscripted by a string.\<close>

fun getitem :: "pyval \<Rightarrow> string \<Rightarrow> exn + pyval" where
  "getitem (PDict kvs) k = (case map_of kvs k of None \<Rightarrow> Inl KeyError | Some v \<Rightarrow> Inr v)"
| "getitem _ k = Inl TypeError"

text \<open>
  Modelled from the spec: the constants of \<^verbatim>\<open>protocol.py\<close> (the performative and protocol
  tags), which the directory imports and only compares for equality.
\<close>

datatype performative =
    REQUEST_PERFORMATIVE
  | INFORM_PERFORMATIVE
  | ACCEPT_PERFORMATIVE
  | CANCEL_PERFORMATIVE
  | OTHER_PERFORMATIVE string

datatype protocol = REQUEST_PROTOCOL | REGISTER_PROTOCOL

record message =
  sender :: string
  to :: string
  protocol :: "protocol option"
  performative :: "performative option"
  body :: "string option"

text \<open>\<^verbatim>\<open>Message()\<close>: no addresses, no metadata, no body.\<close>

definition Message :: message where
  "Message = \<lparr>sender = [], to = [], protocol = None, performative = None, body = None\<rparr>"

text \<open>
  The collaborators outside the directory: the JSON codec and the messaging substrate.
  \<open>send_error m\<close> is the exception that sending \<open>m\<close> raises, if any.
\<close>

record ext =
  json_loads :: "string \<Rightarrow> exn + pyval"
  json_dumps :: "pyval \<Rightarrow> string"
  send_error :: "message \<Rightarrow> exn option"

section \<open>The directory (directory.py)\<close>

text \<open>The store \<^verbatim>\<open>service_agents\<close>: a dict from service type to the list of registered jids.\<close>

type_synonym registry = "key \<rightharpoonup> pyval list"

text \<open>
  \<^verbatim>\<open>RegistrationBehaviour.add_service\<close>. Every exception is raised before the store is
  touched: \<^verbatim>\<open>agent["type"]\<close>, its hashing, \<^verbatim>\<open>agent["jid"]\<close>.
\<close>

definition add_service :: "registry \<Rightarrow> pyval \<Rightarrow> exn + registry" where
  "add_service service agent =
     (case getitem agent ''type'' of
        Inl e \<Rightarrow> Inl e
      | Inr t \<Rightarrow>
          (case hash_key t of
             None \<Rightarrow> Inl TypeError
           | Some k \<Rightarrow>
               (case service k of
                  Some l \<Rightarrow>
                    (case getitem agent ''jid'' of
                       Inl e \<Rightarrow> Inl e
                     | Inr j \<Rightarrow> Inr (service(k \<mapsto> l @ [j])))
                | None \<Rightarrow>
                    (case getitem agent ''jid'' of
                       Inl e \<Rightarrow> Inl e
                     | Inr j \<Rightarrow> Inr (service(k \<mapsto> [j]))))))"

text \<open>
  \<^verbatim>\<open>del l[agent]\<close> on a list: the subscript must be an integer (a bool is one), negative
  subscripts count from the end, anything else is a \<^verbatim>\<open>TypeError\<close>.
\<close>

definition list_index :: "pyval \<Rightarrow> int option" where
  "list_index v = (case v of PInt i \<Rightarrow> Some i | PBool b \<Rightarrow> Some (if b then 1 else 0) | _ \<Rightarrow> None)"

definition del_item :: "'a list \<Rightarrow> pyval \<Rightarrow> exn + 'a list" where
  "del_item l agent =
     (case list_index agent of
        None \<Rightarrow> Inl TypeError
      | Some i \<Rightarrow>
          (let n = int (length l); j = (if i < 0 then i + n else i)
           in if 0 \<le> j \<and> j < n then Inr (take (nat j) l @ drop (Suc (nat j)) l)
              else Inl IndexError))"

text \<open>\<^verbatim>\<open>RegistrationBehaviour.remove_service\<close>: \<^verbatim>\<open>del self.get("service_agents")[type][agent]\<close>.\<close>

definition remove_service :: "registry \<Rightarrow> pyval \<Rightarrow> pyval \<Rightarrow> exn + registry" where
  "remove_service service type agent =
     (case hash_key type of
        None \<Rightarrow> Inl TypeError
      | Some k \<Rightarrow>
          (case service k of
             None \<Rightarrow> Inl KeyError
           | Some l \<Rightarrow>
               (case del_item l agent of
                  Inl e \<Rightarrow> Inl e
                | Inr l' \<Rightarrow> Inr (service(k \<mapsto> l')))))"

text \<open>
  What one call of a behaviour's \<^verbatim>\<open>run\<close> leaves behind: the exception that leaves
  \<^verbatim>\<open>run\<close> (if any), the store, the messages sent and the exceptions written to the log.
\<close>

record iteration =
  raised :: "exn option"
  services :: registry
  outbox :: "message list"
  logged :: "exn list"

definition completes :: "registry \<Rightarrow> message list \<Rightarrow> iteration" where
  "completes service out = \<lparr>raised = None, services = service, outbox = out, logged = []\<rparr>"

definition catches :: "registry \<Rightarrow> exn \<Rightarrow> iteration" where
  "catches service e = \<lparr>raised = None, services = service, outbox = [], logged = [e]\<rparr>"

definition propagates :: "registry \<Rightarrow> exn \<Rightarrow> iteration" where
  "propagates service e = \<lparr>raised = Some e, services = service, outbox = [], logged = []\<rparr>"

text \<open>The reply built by \<^verbatim>\<open>RegistrationBehaviour.send_confirmation\<close>.\<close>

definition confirmation :: "string \<Rightarrow> message" where
  "confirmation agent_id =
     Message\<lparr>to := agent_id, protocol := Some REGISTER_PROTOCOL,
             performative := Some ACCEPT_PERFORMATIVE\<rparr>"

text \<open>
  \<^verbatim>\<open>RegistrationBehaviour.run\<close>: the whole body is inside \<^verbatim>\<open>try ... except Exception\<close>,
  whose handler logs. \<open>m\<close> is what \<^verbatim>\<open>receive(timeout=5)\<close> returned (\<open>None\<close> on timeout).
\<close>

definition registration_run :: "ext \<Rightarrow> registry \<Rightarrow> message option \<Rightarrow> iteration" where
  "registration_run x service m =
     (case m of
        None \<Rightarrow> completes service []
      | Some msg \<Rightarrow>
          if performative msg = Some REQUEST_PERFORMATIVE then
            (case (case body msg of None \<Rightarrow> Inl TypeError | Some b \<Rightarrow> json_loads x b) of
               Inl e \<Rightarrow> catches service e
             | Inr content \<Rightarrow>
                 (case add_service service content of
                    Inl e \<Rightarrow> catches service e
                  | Inr service' \<Rightarrow>
                      (case send_error x (confirmation (sender msg)) of
                         Some e \<Rightarrow> catches service' e
                       | None \<Rightarrow> completes service' [confirmation (sender msg)])))
          else completes service [])"

text \<open>The replies built by \<^verbatim>\<open>send_services\<close> and \<^verbatim>\<open>send_negative\<close>.\<close>

definition services_reply :: "ext \<Rightarrow> string \<Rightarrow> pyval list \<Rightarrow> message" where
  "services_reply x agent_id l =
     Message\<lparr>to := agent_id, protocol := Some REQUEST_PROTOCOL,
             performative := Some INFORM_PERFORMATIVE,
             body := Some (json_dumps x (PList l))\<rparr>"

definition negative_reply :: "string \<Rightarrow> message" where
  "negative_reply agent_id =
     Message\<lparr>to := agent_id, protocol := Some REQUEST_PROTOCOL,
             performative := Some CANCEL_PERFORMATIVE\<rparr>"

text \<open>The key that the body of a lookup request (a string, or \<^verbatim>\<open>None\<close>) denotes.\<close>

definition body_key :: "string option \<Rightarrow> key" where
  "body_key b = (case b of None \<Rightarrow> KNone | Some s \<Rightarrow> KStr s)"

text \<open>
  \<^verbatim>\<open>DirectoryStrategyBehaviour.run\<close>: there is no \<^verbatim>\<open>try\<close> here, so an exception raised by
  \<^verbatim>\<open>send\<close> leaves \<^verbatim>\<open>run\<close>.
\<close>

definition strategy_run :: "ext \<Rightarrow> registry \<Rightarrow> message option \<Rightarrow> iteration" where
  "strategy_run x service m =
     (case m of
        None \<Rightarrow> completes service []
      | Some msg \<Rightarrow>
          if performative msg = Some REQUEST_PERFORMATIVE then
            (case service (body_key (body msg)) of
               Some l \<Rightarrow>
                 (case send_error x (services_reply x (sender msg) l) of
                    Some e \<Rightarrow> propagates service e
                  | None \<Rightarrow> completes service [services_reply x (sender msg) l])
             | None \<Rightarrow>
                 (case send_error x (negative_reply (sender msg)) of
                    Some e \<Rightarrow> propagates service e
                  | None \<Rightarrow> completes service [negative_reply (sender msg)]))
          else completes service [])"

text \<open>
  A well-formed registration payload \<^verbatim>\<open>{"type": t, "jid": j}\<close> and the effect of a sequence
  of them, each through \<open>add_service\<close>.
\<close>

definition payload :: "string \<times> pyval \<Rightarrow> pyval" where
  "payload r = PDict [(''type'', PStr (fst r)), (''jid'', snd r)]"

fun register_all :: "registry \<Rightarrow> (string \<times> pyval) list \<Rightarrow> exn + registry" where
  "register_all service [] = Inr service"
| "register_all service (r # rs) =
     (case add_service service (payload r) of
        Inl e \<Rightarrow> Inl e
      | Inr service' \<Rightarrow> register_all service' rs)"

text \<open>A lookup request for service type \<open>t\<close> from \<open>who\<close>.\<close>

definition lookup_request :: "string \<Rightarrow> string \<Rightarrow> message" where
  "lookup_request who t =
     Message\<lparr>sender := who, protocol := Some REQUEST_PROTOCOL,
             performative := Some REQUEST_PERFORMATIVE, body := Some t\<rparr>"

text \<open>A directory collaborator whose codec rejects every body and whose sends all succeed.\<close>

definition quiet :: ext where
  "quiet = \<lparr>json_loads = (\<lambda>_. Inl ValueError), json_dumps = (\<lambda>_. []),
            send_error = (\<lambda>_. None)\<rparr>"

text \<open>
  A collaborator whose sends all succeed and whose codec writes a value the way
  \<^verbatim>\<open>json.dumps\<close> does by default (separators \<^verbatim>\<open>", "\<close> and \<^verbatim>\<open>": "\<close>), for strings that need no
  escape. \<open>quoted s\<close> is \<open>s\<close> between double quotes.
\<close>

definition quoted :: "string \<Rightarrow> string" where
  "quoted s = CHR 0x22 # s @ [CHR 0x22]"

fun decimal :: "nat \<Rightarrow> string" where
  "decimal n =
     (if n < 10 then [''0123456789'' ! n]
      else decimal (n div 10) @ [''0123456789'' ! (n mod 10)])"

declare decimal.simps [simp del]

fun dumps :: "pyval \<Rightarrow> string"
  and dumps_items :: "pyval list \<Rightarrow> string"
  and dumps_members :: "(string \<times> pyval) list \<Rightarrow> string" where
  "dumps PNone = ''null''"
| "dumps (PBool b) = (if b then ''true'' else ''false'')"
| "dumps (PInt i) = (if i < 0 then CHR ''-'' # decimal (nat (- i)) else decimal (nat i))"
| "dumps (PStr s) = quoted s"
| "dumps (PList l) = ''['' @ dumps_items l @ '']''"
| "dumps (PDict kvs) = ''{'' @ dumps_members kvs @ ''}''"
| "dumps_items [] = []"
| "dumps_items [v] = dumps v"
| "dumps_items (v # w # l) = dumps v @ '', '' @ dumps_items (w # l)"
| "dumps_members [] = []"
| "dumps_members [(k, v)] = quoted k @ '': '' @ dumps v"
| "dumps_members ((k, v) # e # kvs) =
     quoted k @ '': '' @ dumps v @ '', '' @ dumps_members (e # kvs)"

definition plain :: ext where
  "plain = \<lparr>json_loads = (\<lambda>_. Inl ValueError), json_dumps = dumps,
            send_error = (\<lambda>_. None)\<rparr>"

section \<open>The simulator (simulator.py)\<close>

subsection \<open>Agents and collections\<close>

text \<open>
  A Python dict with its insertion order: the list of its items, each key once.
  \<open>dict_set\<close> is \<^verbatim>\<open>d[k] = v\<close>, \<open>dict_of_items\<close> a dict comprehension over the given items,
  \<open>dict_values\<close> is \<^verbatim>\<open>d.values()\<close>.
\<close>

definition dict_set :: "('k \<times> 'v) list \<Rightarrow> 'k \<Rightarrow> 'v \<Rightarrow> ('k \<times> 'v) list" where
  "dict_set d k v =
     (if k \<in> fst ` set d then map (\<lambda>(k', v'). if k' = k then (k', v) else (k', v')) d
      else d @ [(k, v)])"

definition dict_of_items :: "('k \<times> 'v) list \<Rightarrow> ('k \<times> 'v) list" where
  "dict_of_items kvs = foldl (\<lambda>d (k, v). dict_set d k v) [] kvs"

definition dict_values :: "('k \<times> 'v) list \<Rightarrow> 'v list" where
  "dict_values d = map snd d"

text \<open>
  Modelled from the spec: the agent classes (\<^verbatim>\<open>fleetmanager.py\<close>, \<^verbatim>\<open>transport.py\<close>,
  \<^verbatim>\<open>customer.py\<close>) are not among these sources. An agent handle carries its name, its jid, the
  \<open>stopped\<close> flag and the strategy assigned to it, if any; a customer also answers
  \<^verbatim>\<open>get_waiting_time()\<close>, \<^verbatim>\<open>total_time()\<close> and \<^verbatim>\<open>is_in_destination()\<close>, held here as fields.
\<close>

record agent =
  name :: string
  jid :: string
  stopped :: bool
  strategy :: "string option"

record customer = agent +
  waiting_time :: "real option"
  total_time :: "real option"
  in_destination :: bool

text \<open>Modelled from the spec: \<^verbatim>\<open>add_strategy\<close> of an agent assigns the policy to it.\<close>

definition add_strategy :: "'a agent_scheme \<Rightarrow> string \<Rightarrow> 'a agent_scheme" where
  "add_strategy a c = a\<lparr>strategy := Some c\<rparr>"

text \<open>
  The state of \<^verbatim>\<open>itertools.cycle\<close>: the iterator still being consumed on the first pass
  (\<open>None\<close> once exhausted), the elements saved so far and the position in them.
\<close>

record 'a cycle =
  it :: "'a list option"
  saved :: "'a list"
  index :: nat

definition cycle_new :: "'a list \<Rightarrow> 'a cycle" where
  "cycle_new xs = \<lparr>it = Some xs, saved = [], index = 0\<rparr>"

definition cycle_saved :: "'a cycle \<Rightarrow> 'a option \<times> 'a cycle" where
  "cycle_saved c =
     (if saved c = [] then (None, c)
      else (Some (saved c ! index c),
            c\<lparr>index := (if length (saved c) \<le> index c + 1 then 0 else index c + 1)\<rparr>))"

text \<open>One \<^verbatim>\<open>next\<close> on the cycle; \<open>None\<close> is \<^verbatim>\<open>StopIteration\<close>.\<close>

definition cycle_next :: "'a cycle \<Rightarrow> 'a option \<times> 'a cycle" where
  "cycle_next c =
     (case it c of
        Some (x # xs) \<Rightarrow> (Some x, c\<lparr>it := Some xs, saved := saved c @ [x]\<rparr>)
      | Some [] \<Rightarrow> cycle_saved (c\<lparr>it := None\<rparr>)
      | None \<Rightarrow> cycle_saved c)"

text \<open>
  The generator object returned by \<^verbatim>\<open>managers_generator()\<close>. Calling the generator
  function runs none of its body: the collection is read at the first \<^verbatim>\<open>next\<close>. While the
  first pass is in progress the manager collection is taken not to change.
\<close>

datatype generator = Created | Suspended "agent cycle" | Finished

record simulator =
  manager_agents :: "(string \<times> agent) list"
  transport_agents :: "(string \<times> agent) list"
  customer_agents :: "(string \<times> customer) list"
  simulation_running :: bool
  simulation_time :: "real option"
  simulation_init_time :: "real option"
  kill_simulator :: bool
  manager_generator :: "generator option"
  fleetmanager_strategy :: string
  transport_strategy :: string
  customer_strategy :: string
  max_time :: "real option"
  route_stopped :: bool

text \<open>Python truth of an optional number: \<^verbatim>\<open>None\<close> and \<^verbatim>\<open>0\<close> are false.\<close>

definition truthy :: "real option \<Rightarrow> bool" where
  "truthy v = (case v of None \<Rightarrow> False | Some r \<Rightarrow> r \<noteq> 0)"

subsection \<open>The simulation clock\<close>

text \<open>\<^verbatim>\<open>get_simulation_time\<close>; \<open>now\<close> is the reading of \<^verbatim>\<open>time.time()\<close>.\<close>

definition get_simulation_time :: "simulator \<Rightarrow> real \<Rightarrow> real option" where
  "get_simulation_time s now =
     (if \<not> truthy (simulation_init_time s) then Some 0
      else if simulation_running s then Some (now - the (simulation_init_time s))
      else simulation_time s)"

text \<open>\<^verbatim>\<open>clear_stopped_agents\<close>: three dict comprehensions, then the clock fields.\<close>

definition clear_stopped_agents :: "simulator \<Rightarrow> simulator" where
  "clear_stopped_agents s =
     s\<lparr>manager_agents :=
         dict_of_items (filter (\<lambda>(jid, agent). \<not> stopped agent) (manager_agents s)),
       transport_agents :=
         dict_of_items (filter (\<lambda>(jid, agent). \<not> stopped agent) (transport_agents s)),
       customer_agents :=
         dict_of_items (filter (\<lambda>(jid, agent). \<not> stopped agent) (customer_agents s)),
       simulation_time := None,
       simulation_init_time := None\<rparr>"

text \<open>\<^verbatim>\<open>clear_agents\<close>.\<close>

definition clear_agents :: "simulator \<Rightarrow> simulator" where
  "clear_agents s =
     s\<lparr>manager_agents := [], transport_agents := [], customer_agents := [],
       simulation_time := None, simulation_init_time := None\<rparr>"

text \<open>\<^verbatim>\<open>run\<close>: the sweep comes first, outside the test of \<^verbatim>\<open>simulation_running\<close>.\<close>

definition run :: "simulator \<Rightarrow> real \<Rightarrow> simulator" where
  "run s now =
     (let s1 = clear_stopped_agents s
      in if \<not> simulation_running s1 then
           s1\<lparr>kill_simulator := False,
              manager_agents :=
                map (\<lambda>(n, manager). (n, add_strategy manager (fleetmanager_strategy s1)))
                  (manager_agents s1),
              transport_agents :=
                map (\<lambda>(n, transport). (n, add_strategy transport (transport_strategy s1)))
                  (transport_agents s1),
              customer_agents :=
                map (\<lambda>(n, customer). (n, add_strategy customer (customer_strategy s1)))
                  (customer_agents s1),
              simulation_running := True,
              simulation_init_time := Some now\<rparr>
         else s1)"

text \<open>\<^verbatim>\<open>stop_agents\<close>: the loop over the managers is commented out in the source.\<close>

definition stop_agents :: "simulator \<Rightarrow> real \<Rightarrow> simulator" where
  "stop_agents s now =
     (let s1 = s\<lparr>kill_simulator := True, simulation_running := False\<rparr>;
          s2 = (if \<not> truthy (simulation_time s1) then
                  s1\<lparr>simulation_time :=
                       Some (if truthy (simulation_init_time s1)
                             then now - the (simulation_init_time s1) else 0)\<rparr>
                else s1)
      in s2\<lparr>transport_agents :=
              map (\<lambda>(name, agent). (name, agent\<lparr>stopped := True\<rparr>)) (transport_agents s2),
            customer_agents :=
              map (\<lambda>(name, agent). (name, agent\<lparr>stopped := True\<rparr>)) (customer_agents s2)\<rparr>)"

text \<open>
  \<^verbatim>\<open>stop\<close>, with the two readings of the wall clock it makes. Formatting the elapsed time
  for the log raises \<^verbatim>\<open>TypeError\<close> when it is \<^verbatim>\<open>None\<close>. \<^verbatim>\<open>print_stats\<close> writes the report
  and is not part of the state kept here.
\<close>

definition stop :: "simulator \<Rightarrow> real \<Rightarrow> real \<Rightarrow> exn + simulator" where
  "stop s now now' =
     (case get_simulation_time s now of
        None \<Rightarrow> Inl TypeError
      | Some t \<Rightarrow> Inr ((stop_agents (s\<lparr>simulation_time := Some t\<rparr>) now')\<lparr>route_stopped := True\<rparr>))"

text \<open>
  The states in which \<open>get_simulation_time\<close> returns a number: a clock that was started and is
  not running has its frozen time.
\<close>

definition clock_ok :: "simulator \<Rightarrow> bool" where
  "clock_ok s =
     (truthy (simulation_init_time s) \<and> \<not> simulation_running s \<longrightarrow> simulation_time s \<noteq> None)"


subsection \<open>Round-robin assignment of managers\<close>

text \<open>
  \<^verbatim>\<open>manager_assignment\<close>: the generator object is created and stored; nothing is raised.
\<close>

definition manager_assignment :: "simulator \<Rightarrow> simulator" where
  "manager_assignment s = s\<lparr>manager_generator := Some Created\<rparr>"

text \<open>
  Resuming the body of \<^verbatim>\<open>managers_generator\<close> on a cycle: the next manager's jid is
  yielded, or the \<^verbatim>\<open>for\<close> loop ends and the generator returns.
\<close>

definition resume :: "agent cycle \<Rightarrow> (exn + string) \<times> generator" where
  "resume c =
     (case cycle_next c of
        (None, _) \<Rightarrow> (Inl StopIteration, Finished)
      | (Some manager, c') \<Rightarrow> (Inr (jid manager), Suspended c'))"

text \<open>\<^verbatim>\<open>next(g)\<close> on the generator, given the manager collection of the simulator.\<close>

definition generator_next :: "(string \<times> agent) list \<Rightarrow> generator \<Rightarrow> (exn + string) \<times> generator" where
  "generator_next managers g =
     (case g of
        Created \<Rightarrow> resume (cycle_new (dict_values managers))
      | Suspended c \<Rightarrow> resume c
      | Finished \<Rightarrow> (Inl StopIteration, Finished))"

text \<open>
  \<^verbatim>\<open>next(self.manager_generator)\<close>, as \<^verbatim>\<open>async_create_agent\<close> calls it for a transport;
  \<^verbatim>\<open>next(None)\<close> is a \<^verbatim>\<open>TypeError\<close>.
\<close>

definition next_manager :: "simulator \<Rightarrow> (exn + string) \<times> simulator" where
  "next_manager s =
     (case manager_generator s of
        None \<Rightarrow> (Inl TypeError, s)
      | Some g \<Rightarrow>
          (case generator_next (manager_agents s) g of
             (r, g') \<Rightarrow> (r, s\<lparr>manager_generator := Some g'\<rparr>)))"

text \<open>The results of \<open>n\<close> consecutive calls of \<open>next_manager\<close>, and the state after them.\<close>

fun next_managers :: "nat \<Rightarrow> simulator \<Rightarrow> (exn + string) list \<times> simulator" where
  "next_managers 0 s = ([], s)"
| "next_managers (Suc n) s =
     (case next_manager s of
        (r, s1) \<Rightarrow> (case next_managers n s1 of (rs, s2) \<Rightarrow> (r # rs, s2)))"

subsection \<open>Batch creation\<close>

text \<open>
  \<^verbatim>\<open>create_agents_batch\<close> polls the kill switch, which another thread sets: \<open>kill n\<close> is the
  answer of the \<open>n\<close>-th call of \<^verbatim>\<open>is_set()\<close> made by the batch. The batch state counts
  these calls and lists, for each call of \<^verbatim>\<open>create_agent\<close>, the poll that preceded it.
\<close>

record batch =
  polls :: nat
  created :: "nat list"

text \<open>The list \<^verbatim>\<open>iterations\<close>: chunks of 20 and the remainder.\<close>

definition iterations :: "int \<Rightarrow> nat list" where
  "iterations number =
     (let number = max number 0
      in replicate (nat (number div 20)) 20 @ [nat (number mod 20)])"

text \<open>The inner loop \<^verbatim>\<open>for _ in range(iteration)\<close>; \<^verbatim>\<open>break\<close> leaves this loop only.\<close>

fun chunk :: "(nat \<Rightarrow> bool) \<Rightarrow> nat \<Rightarrow> batch \<Rightarrow> batch" where
  "chunk kill 0 b = b"
| "chunk kill (Suc n) b =
     (if kill (polls b) then b\<lparr>polls := Suc (polls b)\<rparr>
      else chunk kill n (b\<lparr>polls := Suc (polls b), created := created b @ [polls b]\<rparr>))"

definition create_agents_batch :: "(nat \<Rightarrow> bool) \<Rightarrow> int \<Rightarrow> batch" where
  "create_agents_batch kill number =
     foldl (\<lambda>b iteration. chunk kill iteration b) \<lparr>polls = 0, created = []\<rparr> (iterations number)"

subsection \<open>Statistics\<close>

text \<open>\<^verbatim>\<open>is_simulation_finish\<close>: all customers are at their destinations, and there is one.\<close>

definition is_simulation_finish :: "simulator \<Rightarrow> bool" where
  "is_simulation_finish s =
     (if length (customer_agents s) > 0
      then list_all in_destination (dict_values (customer_agents s))
      else False)"

text \<open>\<^verbatim>\<open>time_is_out\<close>: comparing with \<^verbatim>\<open>None\<close> on either side is a \<^verbatim>\<open>TypeError\<close>.\<close>

definition time_is_out :: "simulator \<Rightarrow> real \<Rightarrow> exn + bool" where
  "time_is_out s now =
     (case (get_simulation_time s now, max_time s) of
        (Some t, Some m) \<Rightarrow> Inr (t > m)
      | _ \<Rightarrow> Inl TypeError)"

text \<open>\<^verbatim>\<open>is_simulation_finished\<close>.\<close>

definition is_simulation_finished :: "simulator \<Rightarrow> real \<Rightarrow> exn + bool" where
  "is_simulation_finished s now =
     (if max_time s = None then Inr False
      else (case time_is_out s now of
              Inl e \<Rightarrow> Inl e
            | Inr out \<Rightarrow> Inr (out \<or> is_simulation_finish s)))"

text \<open>
  The dict returned by \<^verbatim>\<open>get_stats\<close>; the two averages are kept as numbers, the source
  formats them with two decimals.
\<close>

record stats =
  waiting :: real
  totaltime :: real
  finished :: bool
  is_running :: bool

text \<open>
  \<^verbatim>\<open>get_stats\<close>. The helper \<^verbatim>\<open>avg\<close> of \<^verbatim>\<open>utils.py\<close> is not among these sources and is a
  parameter.
\<close>

definition get_stats :: "(real option list \<Rightarrow> real) \<Rightarrow> simulator \<Rightarrow> real \<Rightarrow> exn + stats" where
  "get_stats avg s now =
     (let (waiting, total) =
            (if length (customer_agents s) > 0 then
               (avg (map waiting_time (dict_values (customer_agents s))),
                avg (map total_time
                       (filter (\<lambda>customer. truthy (total_time customer))
                          (dict_values (customer_agents s)))))
             else (0, 0))
      in case is_simulation_finished s now of
           Inl e \<Rightarrow> Inl e
         | Inr fin \<Rightarrow>
             Inr \<lparr>waiting = waiting, totaltime = total, finished = fin,
                  is_running = simulation_running s\<rparr>)"

subsection \<open>Concrete states\<close>

text \<open>
  The simulator as its constructor leaves it (empty collections, clock never started, the
  generator created), for the given limit of simulation time.
\<close>

definition fresh :: "real option \<Rightarrow> simulator" where
  "fresh limit =
     \<lparr>manager_agents = [], transport_agents = [], customer_agents = [],
      simulation_running = False, simulation_time = None, simulation_init_time = None,
      kill_simulator = False, manager_generator = Some Created,
      fleetmanager_strategy = ''fleet'', transport_strategy = ''transport'',
      customer_strategy = ''customer'', max_time = limit, route_stopped = False\<rparr>"

definition Agent :: "string \<Rightarrow> agent" where
  "Agent n = \<lparr>name = n, jid = n @ ''@localhost'', stopped = False, strategy = None\<rparr>"

definition Customer :: "string \<Rightarrow> customer" where
  "Customer n =
     \<lparr>name = n, jid = n @ ''@localhost'', stopped = False, strategy = None,
      waiting_time = None, total_time = None, in_destination = False\<rparr>"

text \<open>
  A simulator with two managers, two transports and one customer; the second manager and the
  second transport are stopped.
\<close>

definition fleet :: simulator where
  "fleet =
     (fresh (Some 60))
       \<lparr>manager_agents := [(''m1'', Agent ''m1''), (''m2'', (Agent ''m2'')\<lparr>stopped := True\<rparr>)],
        transport_agents := [(''t1'', Agent ''t1''), (''t2'', (Agent ''t2'')\<lparr>stopped := True\<rparr>)],
        customer_agents := [(''c1'', Customer ''c1'')]\<rparr>"

text \<open>A kill switch that is set from the poll \<open>t\<close> on.\<close>

definition set_from :: "nat \<Rightarrow> nat \<Rightarrow> bool" where
  "set_from t j = (t \<le> j)"

subsection \<open>Invariants used in the proofs\<close>

text \<open>
  The generator after \<open>k\<close> calls of \<^verbatim>\<open>next\<close> over the managers \<open>ms\<close>: first pass up to
  \<open>length ms\<close> calls, then the saved list at position \<open>(k - length ms) mod length ms\<close>.
\<close>

definition after_calls :: "agent list \<Rightarrow> nat \<Rightarrow> generator" where
  "after_calls ms k =
     (if k = 0 then Created
      else if k \<le> length ms then
        Suspended \<lparr>it = Some (drop k ms), saved = take k ms, index = 0\<rparr>
      else Suspended \<lparr>it = None, saved = ms, index = (k - length ms) mod length ms\<rparr>)"

text \<open>
  Every creation of the batch so far followed a poll that found the switch clear, and the
  creations are listed in the order of their polls.
\<close>

definition polled :: "(nat \<Rightarrow> bool) \<Rightarrow> batch \<Rightarrow> bool" where
  "polled kill b =
     (sorted_wrt (<) (created b) \<and> (\<forall>i \<in> set (created b). i < polls b \<and> \<not> kill i))"

section \<open>Properties of the directory\<close>

lemma add_service_payload:
  "add_service service (payload (t, j)) =
     Inr (service(KStr t \<mapsto> (case service (KStr t) of None \<Rightarrow> [] | Some l \<Rightarrow> l) @ [j]))"
  by (simp add: add_service_def payload_def split: option.splits)

lemma register_all_returns: "\<exists>service'. register_all service rs = Inr service'"
proof (induction rs arbitrary: service)
  case Nil
  show ?case by simp
next
  case (Cons r rs)
  obtain t j where r: "r = (t, j)" by (cases r)
  show ?case using Cons.IH by (simp add: r add_service_payload)
qed

lemma register_all_entry:
  "register_all service rs = Inr service' \<Longrightarrow>
   service' (KStr t) =
     (if t \<in> fst ` set rs
      then Some ((case service (KStr t) of None \<Rightarrow> [] | Some l \<Rightarrow> l) @
                 map snd (filter (\<lambda>r. fst r = t) rs))
      else service (KStr t))"
proof (induction rs arbitrary: service)
  case Nil
  then show ?case by simp
next
  case (Cons r rs)
  obtain u j where r: "r = (u, j)" by (cases r)
  let ?mid = "service(KStr u \<mapsto> (case service (KStr u) of None \<Rightarrow> [] | Some l \<Rightarrow> l) @ [j])"
  from Cons.prems have rest: "register_all ?mid rs = Inr service'"
    by (simp add: r add_service_payload)
  show ?case
    unfolding Cons.IH [OF rest]
    by (auto simp: r filter_empty_conv image_iff split: option.splits)
qed

text \<open>
  Claim C1. Starting from the empty store, after any sequence \<open>rs\<close> of registrations
  (type, identity), the store holds under \<open>t\<close> exactly the identities registered under \<open>t\<close>, in
  registration order and with duplicates kept, and holds nothing under \<open>t\<close> when no
  registration was for \<open>t\<close>. A lookup request for \<open>t\<close> from \<open>who\<close> is then answered, when the
  substrate delivers, by exactly one message to \<open>who\<close> under the request protocol and nothing
  else (no exception, nothing logged, the store unchanged): if \<open>t\<close> is in the store, an INFORM
  whose body is the serialisation of that list; otherwise a CANCEL without body. The reply is
  the CANCEL one if and only if the type is absent.
\<close>

theorem lookup_after_registrations:
  assumes delivers: "\<forall>m. send_error x m = None"
  shows "\<exists>service.
           register_all Map.empty rs = Inr service \<and>
           service (KStr t) =
             (if t \<in> fst ` set rs then Some (map snd (filter (\<lambda>r. fst r = t) rs)) else None) \<and>
           (service (KStr t) \<noteq> None) = (t \<in> fst ` set rs) \<and>
           strategy_run x service (Some (lookup_request who t)) =
             \<lparr>raised = None, services = service,
              outbox =
                [if t \<in> fst ` set rs
                 then \<lparr>sender = [], to = who, protocol = Some REQUEST_PROTOCOL,
                       performative = Some INFORM_PERFORMATIVE,
                       body = Some (json_dumps x
                                (PList (map snd (filter (\<lambda>r. fst r = t) rs))))\<rparr>
                 else \<lparr>sender = [], to = who, protocol = Some REQUEST_PROTOCOL,
                       performative = Some CANCEL_PERFORMATIVE, body = None\<rparr>],
              logged = []\<rparr> \<and>
           (map performative (outbox (strategy_run x service (Some (lookup_request who t))))
              = [Some CANCEL_PERFORMATIVE]) = (t \<notin> fst ` set rs)"
proof -
  obtain service where reg: "register_all Map.empty rs = Inr service"
    using register_all_returns by blast
  have entry: "service (KStr t) =
      (if t \<in> fst ` set rs then Some (map snd (filter (\<lambda>r. fst r = t) rs)) else None)"
    using register_all_entry [OF reg, of t] by simp
  have known: "(service (KStr t) \<noteq> None) = (t \<in> fst ` set rs)"
    by (simp add: entry)
  have run: "strategy_run x service (Some (lookup_request who t)) =
      \<lparr>raised = None, services = service,
       outbox =
         [if t \<in> fst ` set rs
          then \<lparr>sender = [], to = who, protocol = Some REQUEST_PROTOCOL,
                performative = Some INFORM_PERFORMATIVE,
                body = Some (json_dumps x (PList (map snd (filter (\<lambda>r. fst r = t) rs))))\<rparr>
          else \<lparr>sender = [], to = who, protocol = Some REQUEST_PROTOCOL,
                performative = Some CANCEL_PERFORMATIVE, body = None\<rparr>],
       logged = []\<rparr>"
    using delivers
    by (simp add: strategy_run_def lookup_request_def Message_def body_key_def entry
          completes_def services_reply_def negative_reply_def)
  have neg: "(map performative (outbox (strategy_run x service (Some (lookup_request who t))))
              = [Some CANCEL_PERFORMATIVE]) = (t \<notin> fst ` set rs)"
    unfolding run by simp
  show ?thesis
    by (rule exI [of _ service]) (intro conjI reg entry known run neg)
qed

theorem lookup_after_registrations_witness:
  "(\<forall>m. send_error plain m = None) \<and>
   (\<exists>service.
     register_all Map.empty
       [(''fleet'', PStr ''m1''), (''taxi'', PStr ''t1''), (''fleet'', PStr ''m1'')]
       = Inr service \<and>
     service (KStr ''fleet'') = Some [PStr ''m1'', PStr ''m1''] \<and>
     strategy_run plain service (Some (lookup_request ''c1'' ''fleet'')) =
       \<lparr>raised = None, services = service,
        outbox =
          [\<lparr>sender = [], to = ''c1'', protocol = Some REQUEST_PROTOCOL,
            performative = Some INFORM_PERFORMATIVE,
            body = Some (''['' @ quoted ''m1'' @ '', '' @ quoted ''m1'' @ '']'')\<rparr>],
        logged = []\<rparr>)"
proof -
  have d: "\<forall>m. send_error plain m = None" by (simp add: plain_def)
  have j: "json_dumps plain (PList [PStr ''m1'', PStr ''m1''])
             = ''['' @ quoted ''m1'' @ '', '' @ quoted ''m1'' @ '']''"
    by (simp add: plain_def)
  show ?thesis
    using d j lookup_after_registrations [OF d,
      of "[(''fleet'', PStr ''m1''), (''taxi'', PStr ''t1''), (''fleet'', PStr ''m1'')]"
         "''fleet''" "''c1''"]
    by auto
qed

text \<open>
  The registration behaviour never lets an exception out of \<open>run\<close>, whatever the message,
  the codec and the substrate do.
\<close>

lemma registration_run_never_raises: "raised (registration_run x service m) = None"
  by (simp add: registration_run_def completes_def catches_def split: option.splits sum.splits)

text \<open>
  Claim C8. One iteration of either receive loop should complete without letting an exception
  out. The lookup behaviour does not: when sending the reply to a lookup request raises, the
  exception leaves \<open>run\<close>.
\<close>

theorem strategy_run_propagates:
  "raised (strategy_run (quiet\<lparr>send_error := (\<lambda>_. Some (OtherError ''connection lost''))\<rparr>)
             Map.empty (Some (lookup_request ''customer1'' ''fleet'')))
     = Some (OtherError ''connection lost'')"
  by (simp add: strategy_run_def lookup_request_def Message_def body_key_def propagates_def)

text \<open>Whatever the store and the service type, removing by identity (a string) raises.\<close>

lemma remove_service_identity: "\<exists>e. remove_service service t (PStr a) = Inl e"
  by (simp add: remove_service_def del_item_def list_index_def split: option.splits)

text \<open>
  Claim C9. Deregistering an identity that is registered under the service type should remove
  its entry without an error. The code subscripts the list of identities by the identity
  itself, which raises \<^verbatim>\<open>TypeError\<close> and removes nothing.
\<close>

theorem remove_service_raises:
  "remove_service [KStr ''fleet'' \<mapsto> [PStr ''m1@host'']] (PStr ''fleet'') (PStr ''m1@host'')
     = Inl TypeError"
  by (simp add: remove_service_def del_item_def list_index_def)

section \<open>Properties of the simulator\<close>

subsection \<open>Collections\<close>






subsection \<open>The clock\<close>

lemma get_simulation_time_ok: "clock_ok s \<Longrightarrow> \<exists>t. get_simulation_time s now = Some t"
  by (auto simp: clock_ok_def get_simulation_time_def)

text \<open>The states the simulator reaches from its constructor all satisfy \<open>clock_ok\<close>.\<close>

lemma clock_ok_fresh: "clock_ok (fresh limit)"
  by (simp add: clock_ok_def fresh_def truthy_def)

lemma clock_ok_clear_stopped_agents: "clock_ok (clear_stopped_agents s)"
  by (simp add: clock_ok_def clear_stopped_agents_def truthy_def)

lemma clock_ok_clear_agents: "clock_ok (clear_agents s)"
  by (simp add: clock_ok_def clear_agents_def truthy_def)

lemma clock_ok_run: "clock_ok (run s now)"
  by (simp add: clock_ok_def run_def Let_def clear_stopped_agents_def truthy_def)

lemma clock_ok_stop_agents: "clock_ok (stop_agents s now)"
  by (simp add: clock_ok_def stop_agents_def Let_def truthy_def split: option.splits)

lemma clock_ok_stop: "stop s now now' = Inr s' \<Longrightarrow> clock_ok s'"
  by (auto simp: stop_def clock_ok_def stop_agents_def Let_def truthy_def
        split: option.splits if_splits)

text \<open>
  A call of \<open>run\<close> on a running simulator leaves it running with the start instant erased:
  from then on the elapsed time reads 0.
\<close>

lemma run_while_running:
  "simulation_running s \<Longrightarrow>
   simulation_running (run s now) \<and> get_simulation_time (run s now) later = Some 0"
  by (simp add: run_def clear_stopped_agents_def get_simulation_time_def truthy_def Let_def)

text \<open>
  Claim C2. A second start without a stop in between should keep the origin of the elapsed
  time, so that the time read after it exceeds the time read before it. In the code the second
  \<open>run\<close> sweeps the stopped agents first, which erases the start instant, and then skips the
  restart because the simulation is running: started at 100, the clock reads 10 at 110; after
  a second \<open>run\<close> at 120 it reads 0 at 130, not 30.
\<close>

theorem second_run_resets_clock:
  "get_simulation_time (run (fresh None) 100) 110 = Some 10 \<and>
   simulation_running (run (run (fresh None) 100) 120) \<and>
   get_simulation_time (run (run (fresh None) 100) 120) 130 = Some 0"
  by (simp add: run_def clear_stopped_agents_def fresh_def get_simulation_time_def truthy_def
        dict_of_items_def Let_def)

subsection \<open>Stopping and sweeping\<close>

lemma stop_agents_effect:
  "transport_agents (stop_agents s now)
     = map (\<lambda>(name, agent). (name, agent\<lparr>stopped := True\<rparr>)) (transport_agents s) \<and>
   customer_agents (stop_agents s now)
     = map (\<lambda>(name, agent). (name, agent\<lparr>stopped := True\<rparr>)) (customer_agents s) \<and>
   manager_agents (stop_agents s now) = manager_agents s \<and>
   \<not> simulation_running (stop_agents s now) \<and>
   kill_simulator (stop_agents s now)"
  by (simp add: stop_agents_def Let_def)

text \<open>
  Claim C6. From a state with a well-formed clock, \<open>stop\<close> returns a state in which every
  transport and every customer is stopped, the simulation is not running and the kill switch
  is set; the transports and customers are the former ones with only the flag changed, and
  the manager collection is the one before the call, so no manager's flag has changed.
\<close>

theorem stop_stops_transports_and_customers:
  assumes "clock_ok s"
  shows "\<exists>s'. stop s now now' = Inr s' \<and>
           list_all stopped (dict_values (transport_agents s')) \<and>
           list_all stopped (dict_values (customer_agents s')) \<and>
           transport_agents s'
             = map (\<lambda>(name, agent). (name, agent\<lparr>stopped := True\<rparr>)) (transport_agents s) \<and>
           customer_agents s'
             = map (\<lambda>(name, agent). (name, agent\<lparr>stopped := True\<rparr>)) (customer_agents s) \<and>
           \<not> simulation_running s' \<and>
           kill_simulator s' \<and>
           manager_agents s' = manager_agents s"
proof -
  obtain t where t: "get_simulation_time s now = Some t"
    using get_simulation_time_ok [OF assms] by blast
  let ?s' = "(stop_agents (s\<lparr>simulation_time := Some t\<rparr>) now')\<lparr>route_stopped := True\<rparr>"
  have "stop s now now' = Inr ?s'" by (simp add: stop_def t)
  moreover have "list_all stopped (dict_values (transport_agents ?s'))"
    by (simp add: stop_agents_effect dict_values_def list_all_iff split_beta)
  moreover have "list_all stopped (dict_values (customer_agents ?s'))"
    by (simp add: stop_agents_effect dict_values_def list_all_iff split_beta)
  moreover have "transport_agents ?s'
      = map (\<lambda>(name, agent). (name, agent\<lparr>stopped := True\<rparr>)) (transport_agents s)"
    by (simp add: stop_agents_effect)
  moreover have "customer_agents ?s'
      = map (\<lambda>(name, agent). (name, agent\<lparr>stopped := True\<rparr>)) (customer_agents s)"
    by (simp add: stop_agents_effect)
  moreover have "\<not> simulation_running ?s' \<and> kill_simulator ?s' \<and>
      manager_agents ?s' = manager_agents s"
    by (simp add: stop_agents_effect)
  ultimately show ?thesis by blast
qed

theorem stop_stops_transports_and_customers_witness:
  "simulation_time fleet = None \<and> simulation_init_time fleet = None \<and>
   (\<exists>s'. stop fleet 5 6 = Inr s' \<and>
      list_all stopped (dict_values (transport_agents s')) \<and>
      list_all stopped (dict_values (customer_agents s')) \<and>
      \<not> simulation_running s' \<and> kill_simulator s' \<and>
      manager_agents s' = [(''m1'', Agent ''m1''), (''m2'', (Agent ''m2'')\<lparr>stopped := True\<rparr>)])"
proof -
  have ok: "clock_ok fleet" by (simp add: fleet_def clock_ok_def fresh_def truthy_def)
  have m: "manager_agents fleet = [(''m1'', Agent ''m1''), (''m2'', (Agent ''m2'')\<lparr>stopped := True\<rparr>)]"
    by (simp add: fleet_def)
  have c: "simulation_time fleet = None \<and> simulation_init_time fleet = None"
    by (simp add: fleet_def fresh_def)
  show ?thesis
    using c stop_stops_transports_and_customers [OF ok, of 5 6] unfolding m by blast
qed




subsection \<open>Round-robin assignment\<close>

lemma cycle_next_first_pass:
  assumes "k < length ms"
  shows "cycle_next \<lparr>it = Some (drop k ms), saved = take k ms, index = 0\<rparr>
           = (Some (ms ! k), \<lparr>it = Some (drop (Suc k) ms), saved = take (Suc k) ms, index = 0\<rparr>)"
proof -
  have "drop k ms = ms ! k # drop (Suc k) ms"
    using assms by (simp add: Cons_nth_drop_Suc)
  then show ?thesis
    using assms by (simp add: cycle_next_def take_Suc_conv_app_nth)
qed

lemma cycle_next_saved:
  assumes "i < length ms"
  shows "cycle_next \<lparr>it = None, saved = ms, index = i\<rparr>
           = (Some (ms ! i), \<lparr>it = None, saved = ms, index = Suc i mod length ms\<rparr>)"
proof (cases "Suc i = length ms")
  case True
  have ne: "ms \<noteq> []" using assms by auto
  have "length ms \<le> Suc i" and "Suc i mod length ms = 0" using True by simp_all
  then show ?thesis using ne by (simp add: cycle_next_def cycle_saved_def)
next
  case False
  have ne: "ms \<noteq> []" using assms by auto
  from False assms have lt: "Suc i < length ms" by linarith
  then have "\<not> length ms \<le> Suc i" and "Suc i mod length ms = Suc i" by simp_all
  then show ?thesis using ne by (simp add: cycle_next_def cycle_saved_def)
qed

lemma cycle_next_wrap:
  assumes "ms \<noteq> []"
  shows "cycle_next \<lparr>it = Some [], saved = ms, index = 0\<rparr>
           = (Some (ms ! 0), \<lparr>it = None, saved = ms, index = 1 mod length ms\<rparr>)"
proof -
  have pos: "0 < length ms" using assms by simp
  have "cycle_next \<lparr>it = Some [], saved = ms, index = 0\<rparr>
          = cycle_next \<lparr>it = None, saved = ms, index = 0\<rparr>"
    by (simp add: cycle_next_def)
  then show ?thesis using cycle_next_saved [OF pos] by simp
qed

text \<open>One \<^verbatim>\<open>next\<close>: the \<open>k\<close>-th call yields the manager at position \<open>k mod length\<close>.\<close>

lemma generator_step:
  assumes ne: "dict_values d \<noteq> []"
  shows "generator_next d (after_calls (dict_values d) k)
           = (Inr (jid (dict_values d ! (k mod length (dict_values d)))),
              after_calls (dict_values d) (Suc k))"
proof -
  let ?ms = "dict_values d"
  let ?M = "length ?ms"
  have pos: "0 < ?M" using ne by simp
  consider (start) "k = 0" | (first) "0 < k" "k < ?M" | (wrap) "0 < k" "k = ?M" | (later) "?M < k"
    by linarith
  then show ?thesis
  proof cases
    case start
    have "cycle_new ?ms = \<lparr>it = Some (drop 0 ?ms), saved = take 0 ?ms, index = 0\<rparr>"
      by (simp add: cycle_new_def)
    then have "cycle_next (cycle_new ?ms)
        = (Some (?ms ! 0), \<lparr>it = Some (drop (Suc 0) ?ms), saved = take (Suc 0) ?ms, index = 0\<rparr>)"
      using cycle_next_first_pass [OF pos] by simp
    then show ?thesis
      using pos by (simp add: start generator_next_def resume_def after_calls_def Suc_le_eq)
  next
    case first
    then show ?thesis
      using cycle_next_first_pass [of k ?ms]
      by (simp add: generator_next_def resume_def after_calls_def Suc_le_eq)
  next
    case wrap
    then show ?thesis
      using cycle_next_wrap [OF ne]
      by (simp add: generator_next_def resume_def after_calls_def)
  next
    case later
    have i: "(k - ?M) mod ?M < ?M" using pos by simp
    have "Suc ((k - ?M) mod ?M) mod ?M = (Suc k - ?M) mod ?M"
      using later by (simp add: Suc_diff_le mod_Suc_eq)
    moreover have "(k - ?M) mod ?M = k mod ?M"
      using later by (simp add: le_mod_geq)
    ultimately show ?thesis
      using later cycle_next_saved [OF i]
      by (simp add: generator_next_def resume_def after_calls_def)
  qed
qed

lemma next_managers_after_calls:
  assumes "dict_values (manager_agents s) \<noteq> []"
    and "manager_generator s = Some (after_calls (dict_values (manager_agents s)) k)"
  shows "next_managers n s =
           (map (\<lambda>i. Inr (jid (dict_values (manager_agents s)
                                ! (i mod length (dict_values (manager_agents s)))))) [k..<k + n],
            s\<lparr>manager_generator := Some (after_calls (dict_values (manager_agents s)) (k + n))\<rparr>)"
  using assms
proof (induction n arbitrary: s k)
  case 0
  then show ?case by simp
next
  case (Suc n)
  let ?ms = "dict_values (manager_agents s)"
  let ?s1 = "s\<lparr>manager_generator := Some (after_calls ?ms (Suc k))\<rparr>"
  have step: "next_manager s = (Inr (jid (?ms ! (k mod length ?ms))), ?s1)"
    using Suc.prems generator_step [of "manager_agents s" k] by (simp add: next_manager_def)
  have "next_managers n ?s1 =
      (map (\<lambda>i. Inr (jid (?ms ! (i mod length ?ms)))) [Suc k..<Suc k + n],
       ?s1\<lparr>manager_generator := Some (after_calls ?ms (Suc k + n))\<rparr>)"
    using Suc.IH [of ?s1 "Suc k"] Suc.prems by simp
  then show ?case
    by (simp add: step upt_rec [of k])
qed

lemma map_mod_upt:
  "map (\<lambda>i. f (xs ! (i mod length xs))) [0..<length xs] = map f xs"
  by (rule nth_equalityI) simp_all

text \<open>
  Claim C3. For a non-empty manager collection of size \<open>M\<close>, the first \<open>M\<close> calls of
  \<^verbatim>\<open>next\<close> on a newly built cursor return the jids of the managers, each entry of the
  collection once (in the order of the collection), and the call number \<open>M + 1\<close> returns what
  the first call returned.
\<close>

theorem round_robin:
  assumes "manager_agents s \<noteq> []"
  shows "fst (next_managers (length (manager_agents s)) (manager_assignment s))
           = map (\<lambda>manager. Inr (jid manager)) (dict_values (manager_agents s)) \<and>
         mset (fst (next_managers (length (manager_agents s)) (manager_assignment s)))
           = mset (map (\<lambda>manager. Inr (jid manager)) (dict_values (manager_agents s))) \<and>
         take (length (manager_agents s))
              (fst (next_managers (Suc (length (manager_agents s))) (manager_assignment s)))
           = fst (next_managers (length (manager_agents s)) (manager_assignment s)) \<and>
         fst (next_managers (Suc (length (manager_agents s))) (manager_assignment s))
           ! length (manager_agents s)
           = fst (next_managers (Suc (length (manager_agents s))) (manager_assignment s)) ! 0"
proof -
  let ?s = "manager_assignment s"
  let ?ms = "dict_values (manager_agents s)"
  let ?M = "length (manager_agents s)"
  let ?f = "\<lambda>i. (Inr (jid (?ms ! (i mod length ?ms))) :: exn + string)"
  have len: "length ?ms = ?M" by (simp add: dict_values_def)
  have ne: "dict_values (manager_agents ?s) \<noteq> []"
    using assms by (simp add: manager_assignment_def dict_values_def)
  have gen: "manager_generator ?s = Some (after_calls (dict_values (manager_agents ?s)) 0)"
    by (simp add: manager_assignment_def after_calls_def)
  have same: "dict_values (manager_agents ?s) = ?ms"
    by (simp add: manager_assignment_def)
  have calls: "fst (next_managers n ?s) = map ?f [0..<n]" for n
    using next_managers_after_calls [OF ne gen, of n] by (simp add: same)
  have first: "fst (next_managers ?M ?s) = map (\<lambda>manager. Inr (jid manager)) ?ms"
    using map_mod_upt [of "\<lambda>manager. Inr (jid manager)" ?ms] by (simp add: calls len)
  have more: "fst (next_managers (Suc ?M) ?s) = fst (next_managers ?M ?s) @ [?f ?M]"
    unfolding calls by simp
  have l: "length (fst (next_managers ?M ?s)) = ?M" by (simp add: calls)
  have pos: "0 < ?M" using assms by simp
  have last: "fst (next_managers (Suc ?M) ?s) ! ?M = ?f 0"
    unfolding more using l by (simp add: nth_append len)
  have zero: "fst (next_managers (Suc ?M) ?s) ! 0 = ?f 0"
    unfolding calls using pos by (simp add: nth_map_upt del: upt_Suc)
  from first more l last zero show ?thesis by simp
qed

theorem round_robin_witness:
  "manager_agents fleet \<noteq> [] \<and>
   fst (next_managers 2 (manager_assignment fleet))
     = [Inr ''m1@localhost'', Inr ''m2@localhost''] \<and>
   fst (next_managers 3 (manager_assignment fleet)) ! 2
     = fst (next_managers 3 (manager_assignment fleet)) ! 0"
proof -
  have ne: "manager_agents fleet \<noteq> []" by (simp add: fleet_def)
  have l: "length (manager_agents fleet) = 2" by (simp add: fleet_def)
  have v: "map (\<lambda>manager. Inr (jid manager)) (dict_values (manager_agents fleet))
             = [Inr ''m1@localhost'', Inr ''m2@localhost'' :: exn + string]"
    by (simp add: fleet_def dict_values_def Agent_def)
  show ?thesis
    using ne round_robin [OF ne] unfolding l v by (simp add: numeral_3_eq_3)
qed

text \<open>
  Claim C4, as stated, asks that building the cursor over an empty manager collection fail at
  build time. It does not: \<open>manager_assignment\<close> stores the generator and raises nothing; the
  first \<^verbatim>\<open>next\<close> is what raises.
\<close>

theorem empty_managers_build_succeeds:
  "manager_agents (fresh None) = [] \<and>
   manager_generator (manager_assignment (fresh None)) = Some Created \<and>
   fst (next_manager (manager_assignment (fresh None))) = Inl StopIteration"
  by (simp add: fresh_def manager_assignment_def next_manager_def generator_next_def
        resume_def cycle_new_def cycle_next_def cycle_saved_def dict_values_def)

text \<open>
  Claim C4, amended. With an empty manager collection, building the cursor succeeds; the first
  \<^verbatim>\<open>next\<close> on it fails with \<^verbatim>\<open>StopIteration\<close> (it neither runs forever nor returns a null
  identity) and leaves the generator finished, so that every later \<^verbatim>\<open>next\<close> fails the same
  way.
\<close>

theorem empty_managers_fail_at_next:
  assumes "manager_agents s = []"
  shows "manager_generator (manager_assignment s) = Some Created \<and>
         next_manager (manager_assignment s)
           = (Inl StopIteration, s\<lparr>manager_generator := Some Finished\<rparr>) \<and>
         next_manager (s\<lparr>manager_generator := Some Finished\<rparr>)
           = (Inl StopIteration, s\<lparr>manager_generator := Some Finished\<rparr>)"
  using assms
  by (simp add: manager_assignment_def next_manager_def generator_next_def
        resume_def cycle_new_def cycle_next_def cycle_saved_def dict_values_def)

theorem empty_managers_fail_at_next_witness:
  "manager_agents (fresh (Some 60)) = [] \<and>
   fst (next_manager (manager_assignment (fresh (Some 60)))) = Inl StopIteration"
proof -
  have e: "manager_agents (fresh (Some 60)) = []" by (simp add: fresh_def)
  show ?thesis using e empty_managers_fail_at_next [OF e] by simp
qed

subsection \<open>Batch creation and the kill switch\<close>

lemma chunk_polled: "polled kill b \<Longrightarrow> polled kill (chunk kill n b)"
proof (induction n arbitrary: b)
  case 0
  then show ?case by simp
next
  case (Suc n)
  show ?case
  proof (cases "kill (polls b)")
    case True
    with Suc.prems show ?thesis by (auto simp: polled_def)
  next
    case False
    let ?b = "b\<lparr>polls := Suc (polls b), created := created b @ [polls b]\<rparr>"
    from Suc.prems False have "polled kill ?b"
      by (auto simp: polled_def sorted_wrt_append)
    from Suc.IH [OF this] False show ?thesis by simp
  qed
qed

lemma chunks_polled:
  "polled kill b \<Longrightarrow> polled kill (foldl (\<lambda>b iteration. chunk kill iteration b) b its)"
  by (induction its arbitrary: b) (simp_all add: chunk_polled)

lemma batch_polled: "polled kill (create_agents_batch kill number)"
  unfolding create_agents_batch_def by (rule chunks_polled) (simp add: polled_def)

lemma created_before:
  assumes "polled kill b" and "\<forall>j\<ge>t. kill j"
  shows "length (created b) \<le> t"
proof -
  have d: "distinct (created b)"
    using assms(1) by (simp add: polled_def strict_sorted_iff)
  have "set (created b) \<subseteq> {..<t}"
  proof
    fix i assume "i \<in> set (created b)"
    then have "\<not> kill i" using assms(1) by (simp add: polled_def)
    then have "i < t" using assms(2) by (meson not_le)
    then show "i \<in> {..<t}" by simp
  qed
  then have "card (set (created b)) \<le> card {..<t}" by (intro card_mono) simp_all
  then show ?thesis using d by (simp add: distinct_card)
qed

text \<open>While the switch is never set, a batch of size \<open>number\<close> creates all its agents.\<close>

lemma chunk_no_kill:
  "\<forall>j. \<not> kill j \<Longrightarrow> length (created (chunk kill n b)) = length (created b) + n"
  by (induction n arbitrary: b) simp_all

lemma chunks_no_kill:
  "\<forall>j. \<not> kill j \<Longrightarrow>
   length (created (foldl (\<lambda>b iteration. chunk kill iteration b) b its))
     = length (created b) + sum_list its"
  by (induction its arbitrary: b) (simp_all add: chunk_no_kill)

lemma div_mod_nat_20:
  assumes "0 \<le> (n::int)"
  shows "nat (n div 20) * 20 + nat (n mod 20) = nat n"
proof -
  have a: "0 \<le> n div 20" using assms by simp
  have b: "0 \<le> n mod 20" by simp
  have "nat n = nat (n div 20 * 20 + n mod 20)" by simp
  also have "\<dots> = nat (n div 20 * 20) + nat (n mod 20)"
    using a b by (intro nat_add_distrib) simp_all
  also have "nat (n div 20 * 20) = nat (n div 20) * 20"
    using a by (simp add: nat_mult_distrib)
  finally show ?thesis by simp
qed

lemma sum_list_iterations: "sum_list (iterations number) = nat (max number 0)"
proof -
  have "0 \<le> max number 0" by simp
  from div_mod_nat_20 [OF this] show ?thesis
    by (simp add: iterations_def Let_def sum_list_replicate)
qed

lemma batch_without_kill:
  "\<forall>j. \<not> kill j \<Longrightarrow> length (created (create_agents_batch kill number)) = nat (max number 0)"
  by (simp add: create_agents_batch_def chunks_no_kill sum_list_iterations)

text \<open>
  Claim C5. Let the kill switch be set from the poll \<open>t\<close> on, with \<open>t\<close> less than the size
  \<open>K\<close> of the batch and \<open>K\<close> greater than the chunk size 20. Then the batch creates fewer
  than \<open>K\<close> agents, every agent it creates is created after a poll that comes before \<open>t\<close>
  (nothing is created once the switch is set), and every creation follows a poll that found
  the switch clear.
\<close>

theorem kill_stops_batch:
  assumes "20 < K" and "t < nat K" and "\<forall>j\<ge>t. kill j"
  shows "length (created (create_agents_batch kill K)) < nat K \<and>
         (\<forall>i \<in> set (created (create_agents_batch kill K)). i < t \<and> \<not> kill i)"
proof -
  have p: "polled kill (create_agents_batch kill K)" by (rule batch_polled)
  have "length (created (create_agents_batch kill K)) \<le> t"
    using created_before [OF p assms(3)] .
  moreover have "\<forall>i \<in> set (created (create_agents_batch kill K)). i < t \<and> \<not> kill i"
  proof
    fix i assume i: "i \<in> set (created (create_agents_batch kill K))"
    then have nk: "\<not> kill i" using p by (simp add: polled_def)
    then have "i < t" using assms(3) by (meson not_le)
    with nk show "i < t \<and> \<not> kill i" by simp
  qed
  ultimately show ?thesis using assms(2) by simp
qed

theorem kill_stops_batch_witness:
  "(20::int) < 45 \<and> (23::nat) < nat 45 \<and>
   length (created (create_agents_batch (set_from 23) 45)) < nat 45 \<and>
   set (created (create_agents_batch (set_from 23) 45)) \<subseteq> {..<23}"
proof -
  have a: "(20::int) < 45" by simp
  have b: "(23::nat) < nat 45" by simp
  have c: "\<forall>j\<ge>23. set_from 23 j" by (simp add: set_from_def)
  show ?thesis using a b kill_stops_batch [OF a b c] by auto
qed

subsection \<open>Statistics\<close>

text \<open>
  Claim C10, as stated, asks that with no customers the finished flag be false. It is true
  when a maximum simulation time is configured and has been exceeded: limit 10, started at
  100, read at 200.
\<close>

theorem finished_without_customers:
  "customer_agents (run (fresh (Some 10)) 100) = [] \<and>
   get_stats (\<lambda>_. 0) (run (fresh (Some 10)) 100) 200
     = Inr \<lparr>waiting = 0, totaltime = 0, finished = True, is_running = True\<rparr>"
  by (simp add: run_def clear_stopped_agents_def fresh_def get_simulation_time_def truthy_def
        dict_of_items_def Let_def get_stats_def is_simulation_finished_def time_is_out_def)

text \<open>
  Claim C10, amended. With no customers (and a well-formed clock) \<open>get_stats\<close> returns, both
  averages are 0 whatever \<open>avg\<close> is, and the finished flag is false unless a maximum
  simulation time is configured and the elapsed time exceeds it.
\<close>

theorem get_stats_no_customers:
  assumes "customer_agents s = []" and "clock_ok s"
  shows "\<exists>t. get_simulation_time s now = Some t \<and>
           get_stats avg s now =
             Inr \<lparr>waiting = 0, totaltime = 0,
                  finished = (case max_time s of None \<Rightarrow> False | Some limit \<Rightarrow> t > limit),
                  is_running = simulation_running s\<rparr>"
proof -
  obtain t where t: "get_simulation_time s now = Some t"
    using get_simulation_time_ok [OF assms(2)] by blast
  have "is_simulation_finish s = False" by (simp add: is_simulation_finish_def assms(1))
  then show ?thesis
    by (auto simp: t get_stats_def assms(1) is_simulation_finished_def time_is_out_def
          split: option.splits)
qed

theorem get_stats_no_customers_witness:
  "customer_agents (fresh (Some 10)) = [] \<and>
   simulation_init_time (fresh (Some 10)) = None \<and>
   get_stats (\<lambda>_. 1) (fresh (Some 10)) 5
     = Inr \<lparr>waiting = 0, totaltime = 0, finished = False, is_running = False\<rparr>"
proof -
  have e: "customer_agents (fresh (Some 10)) = []" by (simp add: fresh_def)
  have ok: "clock_ok (fresh (Some 10))" by (simp add: clock_ok_def fresh_def truthy_def)
  have t: "get_simulation_time (fresh (Some 10)) 5 = Some 0"
    by (simp add: get_simulation_time_def fresh_def truthy_def)
  have m: "max_time (fresh (Some 10)) = Some 10" "simulation_running (fresh (Some 10)) = False"
    by (simp_all add: fresh_def)
  have i: "simulation_init_time (fresh (Some 10)) = None" by (simp add: fresh_def)
  show ?thesis
    using e i get_stats_no_customers [OF e ok, of 5 "\<lambda>_. 1"] unfolding t m by simp
qed

end
